theory Spec2Isabelle
  imports Main "HOL-Library.Word"
begin

section \<open>Strings of the host language\<close>

text \<open>
  A string of the program is a sequence of UTF-16 code units; \<open>text.length\<close>
  counts code units. A code unit is a 16-bit word, read as a number with \<open>unat\<close>.
\<close>

type_synonym jsstring = "16 word list"

text \<open>An ASCII literal of the source, as code units.\<close>

definition ascii :: "string \<Rightarrow> jsstring" where
  "ascii s = map (\<lambda>c. of_nat (of_char c)) s"

definition TAB :: "16 word" where "TAB = 0x09"
definition NL :: "16 word" where "NL = 0x0A"
definition CR :: "16 word" where "CR = 0x0D"
definition SPACE :: "16 word" where "SPACE = 0x20"

text \<open>\<open>text.charAt(i)\<close>: the one-unit string at index \<open>i\<close>, the empty string out of range.\<close>

definition charAt :: "jsstring \<Rightarrow> nat \<Rightarrow> jsstring" where
  "charAt text i = (if i < length text then [text ! i] else [])"

text \<open>\<open>s.charCodeAt(i)\<close>: the code unit at index \<open>i\<close>; out of range it is NaN, here \<open>None\<close>.\<close>

definition charCodeAt :: "jsstring \<Rightarrow> nat \<Rightarrow> nat option" where
  "charCodeAt s i = (if i < length s then Some (unat (s ! i)) else None)"

subsection \<open>The global function escape\<close>

text \<open>
  \<open>escape\<close> is the host's legacy percent-encoder (ECMAScript, Annex B): a code unit
  among \<open>A-Z a-z 0-9 @ * _ + - . /\<close> is copied; any other code unit below 256 becomes
  \<open>%XX\<close>, and a code unit from 256 on becomes \<open>%uXXXX\<close>, in upper-case hexadecimal.
\<close>

definition isUnescaped :: "16 word \<Rightarrow> bool" where
  "isUnescaped c =
     (let n = unat c in
        (65 \<le> n \<and> n \<le> 90) \<or> (97 \<le> n \<and> n \<le> 122) \<or> (48 \<le> n \<and> n \<le> 57) \<or>
        n = 64 \<or> n = 42 \<or> n = 95 \<or> n = 43 \<or> n = 45 \<or> n = 46 \<or> n = 47)"

definition hexDigit :: "nat \<Rightarrow> 16 word" where
  "hexDigit d = (if d < 10 then of_nat (48 + d) else of_nat (55 + d))"

definition escapeUnit :: "16 word \<Rightarrow> jsstring" where
  "escapeUnit c =
     (let n = unat c in
        if isUnescaped c then [c]
        else if n < 256 then [0x25, hexDigit (n div 16), hexDigit (n mod 16)]
        else [0x25, 0x75, hexDigit (n div 4096), hexDigit (n div 256 mod 16),
              hexDigit (n div 16 mod 16), hexDigit (n mod 16)])"

definition escape :: "jsstring \<Rightarrow> jsstring" where
  "escape s = concat (map escapeUnit s)"

section \<open>NEIS character and byte counter (src/main.ts)\<close>

definition countChars :: "jsstring \<Rightarrow> nat" where
  "countChars text = length text"

text \<open>
  The loop of \<open>countBytes\<close>: \<open>for (let i = 0; i < text.length; i++)\<close> with the
  accumulator \<open>bytes\<close>.
\<close>

function countBytes_loop :: "jsstring \<Rightarrow> nat \<Rightarrow> nat \<Rightarrow> nat" where
  "countBytes_loop text i bytes =
     (if i < length text then
        (let char = charAt text i in
           if char = [NL] then countBytes_loop text (i + 1) (bytes + 1)
           else if length (escape char) > 4 then countBytes_loop text (i + 1) (bytes + 3)
           else countBytes_loop text (i + 1) (bytes + 1))
      else bytes)"
  by pat_completeness auto
termination
  by (relation "measure (\<lambda>(text, i, bytes). length text - i)") auto

declare countBytes_loop.simps [simp del]

definition countBytes :: "jsstring \<Rightarrow> nat" where
  "countBytes text = countBytes_loop text 0 0"

text \<open>The cost of one character as the specification words it.\<close>

definition charCost :: "16 word \<Rightarrow> nat" where
  "charCost c = (if c = NL then 1 else if length (escape [c]) > 4 then 3 else 1)"

text \<open>A character is wide when it is charged 3 bytes, narrow otherwise.\<close>

definition isWide :: "16 word \<Rightarrow> bool" where
  "isWide c = (c \<noteq> NL \<and> length (escape [c]) > 4)"

definition isAsciiPrintable :: "16 word \<Rightarrow> bool" where
  "isAsciiPrintable c = (32 \<le> unat c \<and> unat c \<le> 126)"

definition isHangulSyllable :: "16 word \<Rightarrow> bool" where
  "isHangulSyllable c = (0xAC00 \<le> unat c \<and> unat c \<le> 0xD7A3)"

definition isCJKIdeograph :: "16 word \<Rightarrow> bool" where
  "isCJKIdeograph c = (0x4E00 \<le> unat c \<and> unat c \<le> 0x9FFF)"

text \<open>The threshold counter: 3 bytes from code unit 256 on, 1 byte below.\<close>

definition thresholdCost :: "16 word \<Rightarrow> nat" where
  "thresholdCost c = (if unat c \<ge> 0x100 then 3 else 1)"

definition countBytes_threshold :: "jsstring \<Rightarrow> nat" where
  "countBytes_threshold text = sum_list (map thresholdCost text)"

section \<open>The earlier counter (src/unnamed/part_000)\<close>

text \<open>
  \<open>for (const char of text)\<close> walks the string by code points: a high surrogate
  followed by a low surrogate is one two-unit \<open>char\<close>, any other code unit is a
  \<open>char\<close> of its own.
\<close>

definition isHighSurrogate :: "16 word \<Rightarrow> bool" where
  "isHighSurrogate c = (0xD800 \<le> unat c \<and> unat c \<le> 0xDBFF)"

definition isLowSurrogate :: "16 word \<Rightarrow> bool" where
  "isLowSurrogate c = (0xDC00 \<le> unat c \<and> unat c \<le> 0xDFFF)"

fun stringIterator :: "jsstring \<Rightarrow> jsstring list" where
  "stringIterator [] = []"
| "stringIterator [c] = [[c]]"
| "stringIterator (c # d # rest) =
     (if isHighSurrogate c \<and> isLowSurrogate d then [c, d] # stringIterator rest
      else [c] # stringIterator (d # rest))"

text \<open>A string in which no high surrogate is followed by a low surrogate.\<close>

fun noSurrogatePair :: "jsstring \<Rightarrow> bool" where
  "noSurrogatePair (c # d # rest) =
     (\<not> (isHighSurrogate c \<and> isLowSurrogate d) \<and> noSurrogatePair (d # rest))"
| "noSurrogatePair s = True"

definition inRange :: "nat option \<Rightarrow> nat \<Rightarrow> nat \<Rightarrow> bool" where
  "inRange code lo hi = (case code of None \<Rightarrow> False | Some n \<Rightarrow> lo \<le> n \<and> n \<le> hi)"

definition rangeCost :: "jsstring \<Rightarrow> nat" where
  "rangeCost char =
     (let code = charCodeAt char 0 in
        if inRange code 0xAC00 0xD7A3 \<or> inRange code 0x1100 0x11FF \<or>
           inRange code 0x3130 0x318F \<or> inRange code 0x4E00 0x9FFF \<or>
           inRange code 0xF900 0xFAFF
        then 3 else 1)"

fun countBytes_range_loop :: "jsstring list \<Rightarrow> nat \<Rightarrow> nat" where
  "countBytes_range_loop [] bytes = bytes"
| "countBytes_range_loop (char # chars) bytes =
     countBytes_range_loop chars (bytes + rangeCost char)"

definition countBytes_range :: "jsstring \<Rightarrow> nat" where
  "countBytes_range text = countBytes_range_loop (stringIterator text) 0"

section \<open>The byte estimate (src/main.ts)\<close>

text \<open>
  A number of the host language is an IEEE 754 binary64 value. The finite, non-negative
  ones are modelled exactly: the pair \<open>(m, k)\<close> stands for \<open>m / 2^k\<close>. After each
  multiplication and addition the exact result is rounded to 53 significant bits, to
  nearest, ties to even, as the host does. Overflow and subnormal results are not
  modelled: they do not arise below, where every value is 0 or lies between 1/8 and
  \<open>2^60\<close>.
\<close>

type_synonym double = "nat \<times> nat"

text \<open>The number of binary digits of a natural number.\<close>

fun bitlen :: "nat \<Rightarrow> nat" where
  "bitlen n = (if n = 0 then 0 else Suc (bitlen (n div 2)))"

declare bitlen.simps [simp del]

text \<open>
  Rounding a mantissa to 53 significant bits: the bits below are cut off and the last
  kept bit is rounded to nearest, to even on a tie; the result is written on the same
  scale.
\<close>

definition round53 :: "nat \<Rightarrow> nat" where
  "round53 m =
     (let n = bitlen m in
        if n \<le> 53 then m
        else
          (let sh = n - 53; q = m div 2 ^ sh; r = m mod 2 ^ sh; half = 2 ^ (sh - 1)
           in (if r > half \<or> (r = half \<and> odd q) then q + 1 else q) * 2 ^ sh))"

text \<open>The product and the sum of two doubles: the exact value, rounded.\<close>

definition dmul :: "double \<Rightarrow> double \<Rightarrow> double" where
  "dmul x y = (round53 (fst x * fst y), snd x + snd y)"

definition dadd :: "double \<Rightarrow> double \<Rightarrow> double" where
  "dadd x y =
     (let k = max (snd x) (snd y)
      in (round53 (fst x * 2 ^ (k - snd x) + fst y * 2 ^ (k - snd y)), k))"

text \<open>An integer below \<open>2^53\<close> is a double as it stands.\<close>

definition ofInteger :: "nat \<Rightarrow> double" where
  "ofInteger n = (n, 0)"

text \<open>\<open>Math.round\<close>: the integer nearest to the value, the upper one on a tie.\<close>

definition mathRound :: "double \<Rightarrow> nat" where
  "mathRound x = (2 * fst x + 2 ^ snd x) div 2 ^ (snd x + 1)"

text \<open>
  The literals \<open>0.8\<close> and \<open>0.2\<close> denote the doubles nearest to 8/10 and 2/10:
  \<open>7205759403792794 / 2^53\<close> and \<open>7205759403792794 / 2^55\<close>.
\<close>

definition literal_0_8 :: double where
  "literal_0_8 = (7205759403792794, 53)"

definition literal_0_2 :: double where
  "literal_0_2 = (7205759403792794, 55)"

text \<open>\<open>Math.round(charCount * 0.8 * 3 + charCount * 0.2 * 1)\<close>.\<close>

definition estimateBytes :: "nat \<Rightarrow> nat" where
  "estimateBytes charCount =
     mathRound
       (dadd (dmul (dmul (ofInteger charCount) literal_0_8) (ofInteger 3))
             (dmul (dmul (ofInteger charCount) literal_0_2) (ofInteger 1)))"

text \<open>
  The estimate in exact arithmetic: \<open>p / q\<close> rounded to the nearest integer, the upper
  one on a tie, at \<open>c * 8/10 * 3 + c * 2/10 * 1\<close>.
\<close>

definition roundedRatio :: "nat \<Rightarrow> nat \<Rightarrow> nat" where
  "roundedRatio p q = (2 * p + q) div (2 * q)"

definition exactEstimate :: "nat \<Rightarrow> nat" where
  "exactEstimate c = roundedRatio (c * 8 * 3 + c * 2 * 1) 10"

section \<open>Tab-separated parser (src/main.ts)\<close>

record StudentActivity =
  studentId :: jsstring
  studentName :: jsstring
  activityContent :: jsstring

text \<open>
  \<open>String.prototype.trim\<close> removes white space and line terminators from both ends:
  TAB, LF, VT, FF, CR, SPACE, NBSP, U+1680, U+2000 to U+200A, U+2028, U+2029, U+202F,
  U+205F, U+3000 and U+FEFF.
\<close>

definition isWhiteSpace :: "16 word \<Rightarrow> bool" where
  "isWhiteSpace c =
     (let n = unat c in
        n = 0x09 \<or> n = 0x0A \<or> n = 0x0B \<or> n = 0x0C \<or> n = 0x0D \<or> n = 0x20 \<or> n = 0xA0 \<or>
        n = 0x1680 \<or> (0x2000 \<le> n \<and> n \<le> 0x200A) \<or> n = 0x2028 \<or> n = 0x2029 \<or>
        n = 0x202F \<or> n = 0x205F \<or> n = 0x3000 \<or> n = 0xFEFF)"


definition trim :: "jsstring \<Rightarrow> jsstring" where
  "trim s = rev (dropWhile isWhiteSpace (rev (dropWhile isWhiteSpace s)))"

text \<open>
  \<open>s.split(sep)\<close> for a one-character separator: the fields between the separators,
  empty fields included; the empty string gives one empty field.
\<close>

fun split_from :: "16 word \<Rightarrow> jsstring \<Rightarrow> jsstring \<Rightarrow> jsstring list" where
  "split_from sep cur [] = [cur]"
| "split_from sep cur (c # cs) =
     (if c = sep then cur # split_from sep [] cs else split_from sep (cur @ [c]) cs)"

definition split_str :: "jsstring \<Rightarrow> 16 word \<Rightarrow> jsstring list" where
  "split_str s sep = split_from sep [] s"

text \<open>\<open>parts.join(sep)\<close>.\<close>

fun join_str :: "jsstring list \<Rightarrow> jsstring \<Rightarrow> jsstring" where
  "join_str [] sep = []"
| "join_str [x] sep = x"
| "join_str (x # y # ys) sep = x @ sep @ join_str (y # ys) sep"

text \<open>
  The loop \<open>for (const line of lines)\<close> of \<open>parseTSV\<close>, pushing onto
  \<open>activities\<close>; \<open>parts.slice(2)\<close> is \<open>drop 2 parts\<close>.
\<close>

fun parseTSV_loop :: "jsstring list \<Rightarrow> StudentActivity list \<Rightarrow> StudentActivity list" where
  "parseTSV_loop [] activities = activities"
| "parseTSV_loop (line # lines) activities =
     (let parts = split_str line TAB in
        if length parts \<ge> 3 then
          parseTSV_loop lines
            (activities @
              [\<lparr>studentId = trim (parts ! 0),
                studentName = trim (parts ! 1),
                activityContent = trim (join_str (drop 2 parts) [SPACE])\<rparr>])
        else parseTSV_loop lines activities)"

definition parseTSV :: "jsstring \<Rightarrow> StudentActivity list" where
  "parseTSV data = parseTSV_loop (split_str (trim data) NL) []"

text \<open>
  The parser as the specification words it: one record per line with at least 3 fields,
  built from the fields of that line.
\<close>

definition activityOfParts :: "jsstring list \<Rightarrow> StudentActivity" where
  "activityOfParts parts =
     \<lparr>studentId = trim (parts ! 0),
      studentName = trim (parts ! 1),
      activityContent = trim (join_str (drop 2 parts) [SPACE])\<rparr>"

definition recordsOfLines :: "jsstring list \<Rightarrow> StudentActivity list" where
  "recordsOfLines lines =
     map activityOfParts
       (filter (\<lambda>parts. length parts \<ge> 3) (map (\<lambda>line. split_str line TAB) lines))"

text \<open>
  The sample line of the specification: student number 10101, a three-syllable Hangul
  name, and a Hangul sentence of 29 code units, separated by tabs.
\<close>

definition exampleName :: jsstring where
  "exampleName = [0xAE40, 0xCCA0, 0xC218]"

definition exampleContent :: jsstring where
  "exampleContent =
     [0xD504, 0xB85C, 0xC81D, 0xD2B8, 0x20, 0xD65C, 0xB3D9, 0xC5D0, 0xC11C, 0x20,
      0xB9AC, 0xB354, 0x20, 0xC5ED, 0xD560, 0xC744, 0x20, 0xB9E1, 0xC544, 0x20,
      0xD300, 0xC6D0, 0xB4E4, 0xC744, 0x20, 0xC774, 0xB04C, 0xC5C8, 0xC74C]"

definition exampleLine :: jsstring where
  "exampleLine = ascii ''10101'' @ [TAB] @ exampleName @ [TAB] @ exampleContent"


section \<open>Report renderer (src/main.ts)\<close>

text \<open>
  The observation record has the three fields of the activity record and three more.
  The counts are non-negative integers; the pipeline only ever stores lengths, byte
  counts and 0.
\<close>

record ObservationRecord = StudentActivity +
  observation :: jsstring
  charCount :: nat
  byteCount :: nat

text \<open>
  \<open>s.replace(/[...]/g, r)\<close> for a class of single characters: every matching
  character is replaced by \<open>r\<close>.
\<close>

definition replaceAll :: "(16 word \<Rightarrow> bool) \<Rightarrow> jsstring \<Rightarrow> jsstring \<Rightarrow> jsstring" where
  "replaceAll matches replacement s =
     concat (map (\<lambda>c. if matches c then replacement else [c]) s)"

text \<open>A count inside a template literal: its decimal digits.\<close>

fun numberToString :: "nat \<Rightarrow> jsstring" where
  "numberToString n =
     (if n < 10 then [of_nat (48 + n)]
      else numberToString (n div 10) @ [of_nat (48 + n mod 10)])"

declare numberToString.simps [simp del]

definition PIPE :: "16 word" where "PIPE = 0x7C"
definition BACKSLASH :: "16 word" where "BACKSLASH = 0x5C"

text \<open>The two header lines of the Markdown table; the Korean column titles as code units.\<close>

definition tableHeader :: jsstring where
  "tableHeader =
     [0x7C, 0x20, 0xD559, 0xBC88, 0x20, 0x7C, 0x20, 0xC131, 0xBA85, 0x20, 0x7C, 0x20,
      0xD559, 0xC0DD, 0xD65C, 0xB3D9, 0xAE30, 0xB85D, 0x20, 0x7C, 0x20,
      0xAD50, 0xC0AC, 0xAD00, 0xCC30, 0xAE30, 0xB85D, 0x20, 0x7C, 0x20,
      0xAE00, 0xC790, 0x20, 0xC218, 0x20, 0x7C, 0x20,
      0xBC14, 0xC774, 0xD2B8, 0x20, 0xC218, 0x20, 0x7C, 0x0A]"

definition tableSeparator :: jsstring where
  "tableSeparator =
     ascii ''|------|------|-------------|-------------|---------|----------|'' @ [NL]"

definition tableRow :: "ObservationRecord \<Rightarrow> jsstring" where
  "tableRow record =
     (let escapedActivity =
            replaceAll (\<lambda>c. c = NL) [SPACE]
              (replaceAll (\<lambda>c. c = PIPE) [BACKSLASH, PIPE] (activityContent record));
          escapedObservation =
            replaceAll (\<lambda>c. c = NL) [SPACE]
              (replaceAll (\<lambda>c. c = PIPE) [BACKSLASH, PIPE] (observation record))
      in ascii ''| '' @ studentId record @ ascii '' | '' @ studentName record @
         ascii '' | '' @ escapedActivity @ ascii '' | '' @ escapedObservation @
         ascii '' | '' @ numberToString (charCount record) @
         ascii '' | '' @ numberToString (byteCount record) @ ascii '' |'' @ [NL])"

fun generateMarkdownTable_loop :: "ObservationRecord list \<Rightarrow> jsstring \<Rightarrow> jsstring" where
  "generateMarkdownTable_loop [] table = table"
| "generateMarkdownTable_loop (record # records) table =
     generateMarkdownTable_loop records (table @ tableRow record)"

definition generateMarkdownTable :: "ObservationRecord list \<Rightarrow> jsstring" where
  "generateMarkdownTable records =
     generateMarkdownTable_loop records (tableHeader @ tableSeparator)"

text \<open>The header line of the tab-separated export: the same six column titles.\<close>

definition tsvHeader :: jsstring where
  "tsvHeader =
     [0xD559, 0xBC88, 0x09, 0xC131, 0xBA85, 0x09,
      0xD559, 0xC0DD, 0xD65C, 0xB3D9, 0xAE30, 0xB85D, 0x09,
      0xAD50, 0xC0AC, 0xAD00, 0xCC30, 0xAE30, 0xB85D, 0x09,
      0xAE00, 0xC790, 0x20, 0xC218, 0x09,
      0xBC14, 0xC774, 0xD2B8, 0x20, 0xC218, 0x0A]"

definition isTabOrLineBreak :: "16 word \<Rightarrow> bool" where
  "isTabOrLineBreak c = (c = TAB \<or> c = NL \<or> c = CR)"

definition tsvRow :: "ObservationRecord \<Rightarrow> jsstring" where
  "tsvRow record =
     (let cleanActivity = replaceAll isTabOrLineBreak [SPACE] (activityContent record);
          cleanObservation = replaceAll isTabOrLineBreak [SPACE] (observation record)
      in studentId record @ [TAB] @ studentName record @ [TAB] @ cleanActivity @ [TAB] @
         cleanObservation @ [TAB] @ numberToString (charCount record) @ [TAB] @
         numberToString (byteCount record) @ [NL])"

fun generateTSVData_loop :: "ObservationRecord list \<Rightarrow> jsstring \<Rightarrow> jsstring" where
  "generateTSVData_loop [] tsv = tsv"
| "generateTSVData_loop (record # records) tsv =
     generateTSVData_loop records (tsv @ tsvRow record)"

definition generateTSVData :: "ObservationRecord list \<Rightarrow> jsstring" where
  "generateTSVData records = generateTSVData_loop records tsvHeader"

section \<open>Vocabulary for the round trip through the export\<close>

text \<open>
  The pair of key fields of a record, and what the parser guarantees of a key field:
  it is trimmed and holds neither a tab nor a newline.
\<close>

definition idName :: "'a StudentActivity_scheme \<Rightarrow> jsstring \<times> jsstring" where
  "idName r = (studentId r, studentName r)"

definition isCleanField :: "jsstring \<Rightarrow> bool" where
  "isCleanField f = (trim f = f \<and> TAB \<notin> set f \<and> NL \<notin> set f)"

definition hasCleanKeys :: "'a StudentActivity_scheme \<Rightarrow> bool" where
  "hasCleanKeys r = (isCleanField (studentId r) \<and> isCleanField (studentName r))"

text \<open>The first two column titles of the export's header line.\<close>

definition headerPair :: "jsstring \<times> jsstring" where
  "headerPair = ([0xD559, 0xBC88], [0xC131, 0xBA85])"

text \<open>A line of the export without its line end, and lines put together again.\<close>

definition tsvHeaderLine :: jsstring where
  "tsvHeaderLine = butlast tsvHeader"

definition tsvLine :: "ObservationRecord \<Rightarrow> jsstring" where
  "tsvLine record = butlast (tsvRow record)"

definition isDigit :: "16 word \<Rightarrow> bool" where
  "isDigit c = (48 \<le> unat c \<and> unat c \<le> 57)"

section \<open>Conversion pipeline (src/main.ts)\<close>

text \<open>
  The provider stored in the settings: one of the four of the source, or any other
  string, for which the \<open>switch\<close> reaches its \<open>default\<close> branch.
\<close>

datatype provider = OpenAI | Claude | Gemini | Grok | OtherProvider jsstring

record StudentActivityPluginSettings =
  apiProvider :: provider
  apiKey :: jsstring
  targetCharCount :: nat
  outputFolder :: jsstring
  modelId :: jsstring

definition DEFAULT_MODELS :: "provider \<Rightarrow> jsstring" where
  "DEFAULT_MODELS p =
     (case p of
        OpenAI \<Rightarrow> ascii ''gpt-4o-mini''
      | Claude \<Rightarrow> ascii ''claude-sonnet-4-5-20250929''
      | Gemini \<Rightarrow> ascii ''gemini-2.5-flash''
      | Grok \<Rightarrow> ascii ''grok-4-1-fast''
      | OtherProvider name \<Rightarrow> [])"

text \<open>
  What a \<open>catch\<close> receives: an \<open>Error\<close> object with its message, or some other
  value.
\<close>

datatype thrown = Error jsstring | NonError

text \<open>
  The four vendor calls are HTTP requests of the host; they are the text-generation
  capability of the pipeline and are taken as parameters. A call gets the key, the
  model, the activity and the target count, reads and changes the outside world
  \<open>'w\<close>, and either returns the observation or throws.
\<close>

type_synonym 'w vendorCall =
  "jsstring \<Rightarrow> jsstring \<Rightarrow> StudentActivity \<Rightarrow> nat \<Rightarrow> 'w \<Rightarrow> (thrown + jsstring) \<times> 'w"

record 'w vendors =
  callOpenAI :: "'w vendorCall"
  callClaude :: "'w vendorCall"
  callGemini :: "'w vendorCall"
  callGrok :: "'w vendorCall"

text \<open>\<open>this.settings.modelId || DEFAULT_MODELS.x\<close>: the default when the model is empty.\<close>

definition modelOrDefault :: "StudentActivityPluginSettings \<Rightarrow> provider \<Rightarrow> jsstring" where
  "modelOrDefault settings p =
     (if modelId settings = [] then DEFAULT_MODELS p else modelId settings)"

text \<open>The message of the \<open>default\<close> branch: a Korean phrase, then the provider.\<close>

definition unsupportedProviderMessage :: "jsstring \<Rightarrow> jsstring" where
  "unsupportedProviderMessage name =
     [0xC9C0, 0xC6D0, 0xD558, 0xC9C0, 0x20, 0xC54A, 0xB294, 0x20, 0x41, 0x49, 0x20,
      0xC81C, 0xACF5, 0xC790, 0x3A, 0x20] @ name"

text \<open>The \<open>switch\<close> inside the \<open>try\<close> block.\<close>

definition generate ::
  "'w vendors \<Rightarrow> StudentActivityPluginSettings \<Rightarrow> StudentActivity \<Rightarrow> nat \<Rightarrow> 'w \<Rightarrow>
     (thrown + jsstring) \<times> 'w" where
  "generate api settings activity target w =
     (case apiProvider settings of
        OpenAI \<Rightarrow>
          callOpenAI api (apiKey settings) (modelOrDefault settings OpenAI) activity target w
      | Claude \<Rightarrow>
          callClaude api (apiKey settings) (modelOrDefault settings Claude) activity target w
      | Gemini \<Rightarrow>
          callGemini api (apiKey settings) (modelOrDefault settings Gemini) activity target w
      | Grok \<Rightarrow>
          callGrok api (apiKey settings) (modelOrDefault settings Grok) activity target w
      | OtherProvider name \<Rightarrow> (Inl (Error (unsupportedProviderMessage name)), w))"

text \<open>
  The placeholder of a failed row: an opening bracket and a Korean label, the message
  of the error (a fixed Korean phrase when the thrown value is no \<open>Error\<close>), and a
  closing bracket.
\<close>

definition failureText :: "thrown \<Rightarrow> jsstring" where
  "failureText error =
     [0x5B, 0xBCC0, 0xD658, 0x20, 0xC2E4, 0xD328, 0x3A, 0x20] @
     (case error of
        Error message \<Rightarrow> message
      | NonError \<Rightarrow> [0xC54C, 0x20, 0xC218, 0x20, 0xC5C6, 0xB294, 0x20, 0xC624, 0xB958]) @
     [0x5D]"

text \<open>
  What the loop does to the progress dialog and the clock: a progress update before
  each row and a delay of 500 ms between rows.
\<close>

datatype event =
  UpdateProgress nat nat jsstring
  | Delay nat

record 'w conversion =
  records :: "ObservationRecord list"
  errorCount :: nat
  world :: 'w
  events :: "event list"

text \<open>One iteration of the loop of \<open>processConversion\<close>, for \<open>activities[i]\<close>.\<close>

definition processActivity ::
  "'w vendors \<Rightarrow> StudentActivityPluginSettings \<Rightarrow> nat \<Rightarrow> nat \<Rightarrow> nat \<Rightarrow> StudentActivity \<Rightarrow>
     'w conversion \<Rightarrow> 'w conversion" where
  "processActivity api settings target len i activity s =
     (let s1 = s\<lparr>events := events s @ [UpdateProgress (i + 1) len (studentName activity)]\<rparr>;
          s2 = (case generate api settings activity target (world s1) of
                  (Inr generated, w) \<Rightarrow>
                    s1\<lparr>records := records s1 @
                         [\<lparr>studentId = studentId activity,
                           studentName = studentName activity,
                           activityContent = activityContent activity,
                           observation = generated,
                           charCount = countChars generated,
                           byteCount = countBytes generated\<rparr>],
                       world := w\<rparr>
                | (Inl error, w) \<Rightarrow>
                    s1\<lparr>errorCount := errorCount s1 + 1,
                       records := records s1 @
                         [\<lparr>studentId = studentId activity,
                           studentName = studentName activity,
                           activityContent = activityContent activity,
                           observation = failureText error,
                           charCount = 0,
                           byteCount = 0\<rparr>],
                       world := w\<rparr>)
      in if i < len - 1 then s2\<lparr>events := events s2 @ [Delay 500]\<rparr> else s2)"

function processConversion_loop ::
  "'w vendors \<Rightarrow> StudentActivityPluginSettings \<Rightarrow> nat \<Rightarrow> StudentActivity list \<Rightarrow> nat \<Rightarrow>
     'w conversion \<Rightarrow> 'w conversion" where
  "processConversion_loop api settings target activities i s =
     (if i < length activities then
        processConversion_loop api settings target activities (i + 1)
          (processActivity api settings target (length activities) i (activities ! i) s)
      else s)"
  by pat_completeness auto
termination
  by (relation "measure (\<lambda>(api, settings, target, activities, i, s). length activities - i)")
     auto

declare processConversion_loop.simps [simp del]

text \<open>
  The result note is created through the host: the vault (looking a folder up, creating
  it, creating the file), \<open>Buffer\<close> (the base64 text of the export) and the workspace
  leaf (opening the file). Each awaited call may throw, and nothing in
  \<open>createResultNote\<close> or \<open>processConversion\<close> catches it. The content handed to
  \<open>vault.create\<close> is kept as far as it follows from the records: the total, the
  encoded export and the table; its time stamp and its two rounded means are further
  text of the same note and are not part of the content record. The file name comes
  from the clock and is a parameter. The progress dialog and the handler of the copy
  button, which is registered in a timer after the file is open, belong to the user
  interface and are left out.
\<close>

record resultNote =
  totalCount :: nat
  encodedTSV :: jsstring
  resultTable :: jsstring

record 'w host =
  folderExists :: "jsstring \<Rightarrow> 'w \<Rightarrow> bool"
  vaultCreateFolder :: "jsstring \<Rightarrow> 'w \<Rightarrow> thrown option \<times> 'w"
  bufferToBase64 :: "jsstring \<Rightarrow> thrown + jsstring"
  vaultCreate :: "jsstring \<Rightarrow> resultNote \<Rightarrow> 'w \<Rightarrow> thrown option \<times> 'w"
  leafOpenFile :: "jsstring \<Rightarrow> 'w \<Rightarrow> thrown option \<times> 'w"

definition createResultNote ::
  "'w host \<Rightarrow> StudentActivityPluginSettings \<Rightarrow> jsstring \<Rightarrow> ObservationRecord list \<Rightarrow> 'w \<Rightarrow>
     (thrown + resultNote) \<times> 'w" where
  "createResultNote h settings fileName rs w =
     (case (if outputFolder settings \<noteq> [] \<and> \<not> folderExists h (outputFolder settings) w
            then vaultCreateFolder h (outputFolder settings) w
            else (None, w)) of
        (Some error, w1) \<Rightarrow> (Inl error, w1)
      | (None, w1) \<Rightarrow>
          (let filePath =
                 (if outputFolder settings \<noteq> []
                  then outputFolder settings @ ascii ''/'' @ fileName
                  else fileName)
           in case bufferToBase64 h (generateTSVData rs) of
                Inl error \<Rightarrow> (Inl error, w1)
              | Inr encoded \<Rightarrow>
                  (let content =
                         \<lparr>totalCount = length rs, encodedTSV = encoded,
                          resultTable = generateMarkdownTable rs\<rparr>
                   in case vaultCreate h filePath content w1 of
                        (Some error, w2) \<Rightarrow> (Inl error, w2)
                      | (None, w2) \<Rightarrow>
                          (case leafOpenFile h filePath w2 of
                             (Some error, w3) \<Rightarrow> (Inl error, w3)
                           | (None, w3) \<Rightarrow> (Inr content, w3)))))"

text \<open>
  The final notice: how many rows succeeded and failed, or how many were converted.
  With no parsed row the function shows a notice and returns before anything else.
  When the creation of the note throws, the promise of \<open>processConversion\<close> is
  rejected with that error and no final notice is shown.
\<close>

datatype notice = FailuresNotice nat nat | CompleteNotice nat

datatype 'w outcome =
  NoData
  | Rejected thrown "'w conversion" 'w
  | Converted "'w conversion" resultNote notice 'w

definition processConversion ::
  "'w vendors \<Rightarrow> 'w host \<Rightarrow> StudentActivityPluginSettings \<Rightarrow> jsstring \<Rightarrow> jsstring \<Rightarrow> nat \<Rightarrow>
     'w \<Rightarrow> 'w outcome" where
  "processConversion api h settings fileName data target w =
     (let activities = parseTSV data in
        if length activities = 0 then NoData
        else
          (let s = processConversion_loop api settings target activities 0
                     \<lparr>records = [], errorCount = 0, world = w, events = []\<rparr>
           in case createResultNote h settings fileName (records s) (world s) of
                (Inl error, w1) \<Rightarrow> Rejected error s w1
              | (Inr note, w1) \<Rightarrow>
                  Converted s note
                    (if errorCount s > 0
                     then FailuresNotice (length (records s) - errorCount s) (errorCount s)
                     else CompleteNotice (length (records s)))
                    w1))"

section \<open>The pipeline as the specification words it\<close>

text \<open>
  For each activity in order, generation is invoked once, in the world the previous
  invocation left; the results are collected in that order.
\<close>

fun attempts ::
  "'w vendors \<Rightarrow> StudentActivityPluginSettings \<Rightarrow> nat \<Rightarrow> StudentActivity list \<Rightarrow> 'w \<Rightarrow>
     (thrown + jsstring) list \<times> 'w" where
  "attempts api settings target [] w = ([], w)"
| "attempts api settings target (a # as) w =
     (case generate api settings a target w of
        (result, w1) \<Rightarrow>
          (case attempts api settings target as w1 of
             (results, w2) \<Rightarrow> (result # results, w2)))"

text \<open>
  The record of a row: on success the text with its counts, on failure the placeholder
  that embeds the message of the error, with both counts 0.
\<close>

definition failureRecord :: "StudentActivity \<Rightarrow> thrown \<Rightarrow> ObservationRecord" where
  "failureRecord a error =
     \<lparr>studentId = studentId a, studentName = studentName a,
      activityContent = activityContent a, observation = failureText error,
      charCount = 0, byteCount = 0\<rparr>"

definition successRecord :: "StudentActivity \<Rightarrow> jsstring \<Rightarrow> ObservationRecord" where
  "successRecord a generated =
     \<lparr>studentId = studentId a, studentName = studentName a,
      activityContent = activityContent a, observation = generated,
      charCount = countChars generated, byteCount = countBytes generated\<rparr>"

definition observationRecordOf :: "StudentActivity \<Rightarrow> thrown + jsstring \<Rightarrow> ObservationRecord" where
  "observationRecordOf a result =
     (case result of Inl error \<Rightarrow> failureRecord a error | Inr generated \<Rightarrow> successRecord a generated)"





text \<open>
  The rendered table read back as lines: two header lines, then for each record, in
  order, a line that begins with its student number and name between bars, then the
  empty rest after the last line end.
\<close>

definition rowStart :: "'a StudentActivity_scheme \<Rightarrow> jsstring" where
  "rowStart a = ascii ''| '' @ studentId a @ ascii '' | '' @ studentName a @ ascii '' | ''"

definition tableRowsInOrder :: "jsstring list \<Rightarrow> jsstring \<Rightarrow> bool" where
  "tableRowsInOrder starts table =
     (let ls = split_str table NL in
        length ls = length starts + 3 \<and>
        take 2 ls = [butlast tableHeader, butlast tableSeparator] \<and>
        last ls = [] \<and>
        list_all2 (\<lambda>start l. take (length start) l = start) starts (butlast (drop 2 ls)))"

definition tableLine :: "ObservationRecord \<Rightarrow> jsstring" where
  "tableLine record = butlast (tableRow record)"

section \<open>Sample vendors, hosts and settings\<close>





definition DEFAULT_SETTINGS :: StudentActivityPluginSettings where
  "DEFAULT_SETTINGS =
     \<lparr>apiProvider = OpenAI, apiKey = [], targetCharCount = 500, outputFolder = [],
      modelId = ascii ''gpt-4o-mini''\<rparr>"





section \<open>Facts about escape\<close>

lemma length_escapeUnit:
  "length (escapeUnit c) = (if isUnescaped c then 1 else if unat c < 256 then 3 else 6)"
  by (simp add: escapeUnit_def Let_def)

lemma isUnescaped_below_256: "isUnescaped c \<Longrightarrow> unat c < 256"
  by (auto simp: isUnescaped_def Let_def)

lemma escape_single_long: "(4 < length (escape [c])) = (256 \<le> unat c)"
  using isUnescaped_below_256 [of c] by (auto simp: escape_def length_escapeUnit)

lemma unat_NL: "unat NL = 10"
  by (simp add: NL_def)

lemma charCost_threshold: "charCost c = thresholdCost c"
  using unat_NL by (auto simp: charCost_def thresholdCost_def escape_single_long)

lemma isWide_threshold: "isWide c = (256 \<le> unat c)"
  using unat_NL by (auto simp: isWide_def escape_single_long)

section \<open>The loop of countBytes as a sum\<close>

lemma countBytes_loop_sum:
  "countBytes_loop s i b = b + sum_list (map charCost (drop i s))"
proof (induction s i b rule: countBytes_loop.induct)
  case (1 s i b)
  show ?case
  proof (cases "i < length s")
    case False
    then show ?thesis by (simp add: countBytes_loop.simps [of s i b])
  next
    case True
    then have d: "drop i s = s ! i # drop (Suc i) s"
      by (simp add: Cons_nth_drop_Suc)
    have c: "charAt s i = [s ! i]"
      using True by (simp add: charAt_def)
    have cc: "charCost (s ! i) =
        (if s ! i = NL then 1 else if 4 < length (escape [s ! i]) then 3 else 1)"
      by (simp add: charCost_def)
    show ?thesis
      using True "1.IH" [OF True refl]
      by (subst countBytes_loop.simps) (simp add: c d cc)
  qed
qed


lemma countBytes_as_sum: "countBytes s = sum_list (map charCost s)"
  by (simp add: countBytes_def countBytes_loop_sum)

lemma charCost_fun: "charCost = thresholdCost"
  by (rule ext) (rule charCost_threshold)

lemma sum_thresholdCost_filter:
  "sum_list (map thresholdCost s) =
     3 * length (filter (\<lambda>c. 256 \<le> unat c) s) + length (filter (\<lambda>c. \<not> 256 \<le> unat c) s)"
  by (induction s) (simp_all add: thresholdCost_def)

text \<open>
  Claim C1. For every string, \<open>countBytes\<close> returns the sum, over the UTF-16 code
  units of the string, of the cost of each: a newline costs 1; any other character whose
  \<open>escape\<close> form is longer than 4 characters costs 3; every remaining character
  costs 1.
\<close>

theorem countBytes_sum_of_costs: "countBytes text = sum_list (map charCost text)"
  unfolding countBytes_def by (simp add: countBytes_loop_sum)

text \<open>
  Claim C9. The escape-based \<open>countBytes\<close> computes the same value as the threshold
  counter that charges 3 bytes for a code unit from 0x100 on and 1 byte below. So
  U+00E9 costs 1 byte, and Greek U+03B1 and Cyrillic U+0434 cost 3 bytes each.
\<close>

theorem countBytes_eq_threshold:
  "countBytes text = countBytes_threshold text \<and>
   charCost c = (if 0x100 \<le> unat c then 3 else 1) \<and>
   countBytes [0xE9] = 1 \<and> countBytes [0x3B1] = 3 \<and> countBytes [0x434] = 3"
proof -
  have "countBytes text = countBytes_threshold text"
    by (simp add: countBytes_as_sum countBytes_threshold_def charCost_fun)
  moreover have "charCost c = (if 0x100 \<le> unat c then 3 else 1)"
    by (simp add: charCost_threshold thresholdCost_def)
  moreover have "countBytes [0xE9] = 1" "countBytes [0x3B1] = 3" "countBytes [0x434] = 3"
    by (simp_all add: countBytes_as_sum charCost_threshold thresholdCost_def)
  ultimately show ?thesis by simp
qed

lemma sum_charCost_filter:
  "sum_list (map charCost s) =
     3 * length (filter isWide s) + length (filter (\<lambda>c. \<not> isWide c) s)"
  by (induction s) (simp_all add: charCost_threshold thresholdCost_def isWide_threshold)

lemma narrow_sum: "list_all (\<lambda>c. \<not> isWide c) s \<Longrightarrow> sum_list (map charCost s) = length s"
  by (induction s) (simp_all add: charCost_threshold thresholdCost_def isWide_threshold)

lemma wide_sum: "list_all isWide s \<Longrightarrow> sum_list (map charCost s) = 3 * length s"
  by (induction s) (simp_all add: charCost_threshold thresholdCost_def isWide_threshold)

lemma ascii_narrow: "isAsciiPrintable c \<Longrightarrow> \<not> isWide c"
  by (simp add: isAsciiPrintable_def isWide_threshold)

lemma hangul_wide: "isHangulSyllable c \<Longrightarrow> isWide c"
  by (simp add: isHangulSyllable_def isWide_threshold)

lemma cjk_wide: "isCJKIdeograph c \<Longrightarrow> isWide c"
  by (simp add: isCJKIdeograph_def isWide_threshold)

text \<open>
  Claim C2. A string of \<open>n\<close> wide and \<open>m\<close> narrow or newline characters, in any
  order, has \<open>countBytes = 3n + m\<close>. A string of printable ASCII characters only has
  as many bytes as characters, a string of Hangul syllables only has three times as
  many. Hangul syllables and CJK ideographs are wide; printable ASCII characters and
  the newline are narrow.
\<close>

theorem countBytes_mixed:
  "countBytes text =
     3 * length (filter isWide text) + length (filter (\<lambda>c. \<not> isWide c) text) \<and>
   (list_all isAsciiPrintable text \<longrightarrow> countBytes text = countChars text) \<and>
   (list_all isHangulSyllable text \<longrightarrow> countBytes text = 3 * countChars text) \<and>
   (isHangulSyllable c \<or> isCJKIdeograph c \<longrightarrow> isWide c) \<and>
   (isAsciiPrintable c \<or> c = NL \<longrightarrow> \<not> isWide c)"
proof (intro conjI impI)
  show "countBytes text =
     3 * length (filter isWide text) + length (filter (\<lambda>c. \<not> isWide c) text)"
    by (simp add: countBytes_as_sum sum_charCost_filter)
next
  assume "list_all isAsciiPrintable text"
  then have "list_all (\<lambda>c. \<not> isWide c) text"
    by (simp add: list_all_iff ascii_narrow)
  then show "countBytes text = countChars text"
    by (simp add: countBytes_as_sum narrow_sum countChars_def)
next
  assume "list_all isHangulSyllable text"
  then have "list_all isWide text"
    by (simp add: list_all_iff hangul_wide)
  then show "countBytes text = 3 * countChars text"
    by (simp add: countBytes_as_sum wide_sum countChars_def)
next
  assume "isHangulSyllable c \<or> isCJKIdeograph c"
  then show "isWide c"
    using hangul_wide cjk_wide by blast
next
  assume "isAsciiPrintable c \<or> c = NL"
  then show "\<not> isWide c"
    using ascii_narrow by (auto simp: isWide_def)
qed

text \<open>The theorem of C2 at concrete strings: a mixed one, \<open>Hi!\<close>, and a Hangul name.\<close>

theorem countBytes_mixed_witness:
  "countBytes [0x41, 0xAC00, 0x0A, 0x6F22, 0x31] = 3 * 2 + 3 \<and>
   list_all isAsciiPrintable [0x48, 0x69, 0x21] \<and>
   countBytes [0x48, 0x69, 0x21] = countChars [0x48, 0x69, 0x21] \<and>
   list_all isHangulSyllable [0xAE40, 0xCCA0, 0xC218] \<and>
   countBytes [0xAE40, 0xCCA0, 0xC218] = 3 * countChars [0xAE40, 0xCCA0, 0xC218] \<and>
   isHangulSyllable 0xAE40 \<and> isWide 0xAE40 \<and> isCJKIdeograph 0x6F22 \<and> isWide 0x6F22 \<and>
   isAsciiPrintable 0x41 \<and> \<not> isWide 0x41 \<and> \<not> isWide NL"
proof -
  have a: "list_all isAsciiPrintable [0x48, 0x69, 0x21]"
    by (simp add: isAsciiPrintable_def)
  have h: "list_all isHangulSyllable [0xAE40, 0xCCA0, 0xC218]"
    by (simp add: isHangulSyllable_def)
  have k: "isHangulSyllable 0xAE40" "isCJKIdeograph 0x6F22" "isAsciiPrintable 0x41"
    by (simp_all add: isHangulSyllable_def isCJKIdeograph_def isAsciiPrintable_def)
  have w: "filter isWide [0x41, 0xAC00, 0x0A, 0x6F22, 0x31] = [0xAC00, 0x6F22]"
    "filter (\<lambda>c. \<not> isWide c) [0x41, 0xAC00, 0x0A, 0x6F22, 0x31] = [0x41, 0x0A, 0x31]"
    by (simp_all add: isWide_threshold)
  show ?thesis
    using a h k w
      countBytes_mixed [of "[0x41, 0xAC00, 0x0A, 0x6F22, 0x31]" "0xAE40"]
      countBytes_mixed [of "[0x48, 0x69, 0x21]" "0x6F22"]
      countBytes_mixed [of "[0xAE40, 0xCCA0, 0xC218]" "0x41"]
      countBytes_mixed [of "[]" NL]
    by simp
qed

text \<open>
  Claim C4. The claim is \<open>countBytes s \<ge> countChars s\<close> for both counters. The
  range-based counter of src/unnamed/part_000 walks the string by code points while
  \<open>countChars\<close> counts code units: on U+1F600, the surrogate pair D83D DE00, it
  returns 1 byte for 2 characters.
\<close>

theorem countBytes_range_below_countChars:
  "countBytes_range [0xD83D, 0xDE00] = 1 \<and> countChars [0xD83D, 0xDE00] = 2 \<and>
   countBytes_range [0xD83D, 0xDE00] < countChars [0xD83D, 0xDE00]"
  by (simp add: countBytes_range_def isHighSurrogate_def isLowSurrogate_def rangeCost_def
      charCodeAt_def inRange_def countChars_def)

text \<open>The counter of src/main.ts walks code units and does satisfy the invariant.\<close>

lemma countChars_le_countBytes: "countChars s \<le> countBytes s"
proof -
  have "length s \<le> sum_list (map charCost s)"
    by (induction s) (simp_all add: charCost_def)
  then show ?thesis
    by (simp add: countChars_def countBytes_as_sum)
qed

text \<open>
  The range-based counter charges at least one byte per code point, so it satisfies the
  invariant on every string in which no high surrogate is followed by a low one.
\<close>

lemma countBytes_range_loop_ge: "bytes + length chars \<le> countBytes_range_loop chars bytes"
proof (induction chars arbitrary: bytes)
  case Nil
  then show ?case by simp
next
  case (Cons char chars)
  have "1 \<le> rangeCost char"
    by (simp add: rangeCost_def Let_def)
  then have "Suc bytes + length chars \<le> bytes + rangeCost char + length chars"
    by simp
  also have "\<dots> \<le> countBytes_range_loop chars (bytes + rangeCost char)"
    by (rule Cons.IH)
  finally show ?case by simp
qed

lemma stringIterator_units: "noSurrogatePair s \<Longrightarrow> length (stringIterator s) = length s"
  by (induction s rule: stringIterator.induct) auto

lemma countChars_le_countBytes_range:
  "noSurrogatePair s \<Longrightarrow> countChars s \<le> countBytes_range s"
  using countBytes_range_loop_ge [of 0 "stringIterator s"]
  by (simp add: countChars_def countBytes_range_def stringIterator_units)

section \<open>The parser\<close>

lemma parseTSV_loop_records:
  "parseTSV_loop lines activities = activities @ recordsOfLines lines"
  by (induction lines arbitrary: activities)
     (simp_all add: recordsOfLines_def activityOfParts_def Let_def)

lemma parseTSV_records: "parseTSV data = recordsOfLines (split_str (trim data) NL)"
  by (simp add: parseTSV_def parseTSV_loop_records)



lemmas parse_eval =
  parseTSV_def recordsOfLines_def activityOfParts_def trim_def isWhiteSpace_def
  split_str_def TAB_def NL_def SPACE_def Let_def ascii_def

section \<open>The export and the parser\<close>


lemma unat_digit: "n < 10 \<Longrightarrow> unat (of_nat (48 + n) :: 16 word) = 48 + n"
proof -
  assume "n < 10"
  have "unat (of_nat (48 + n) :: 16 word) = (48 + n) mod 2 ^ LENGTH(16)"
    by (rule unat_of_nat)
  also have "\<dots> = 48 + n"
    using \<open>n < 10\<close> by simp
  finally show ?thesis .
qed

lemma numberToString_digits: "list_all isDigit (numberToString n)"
proof (induction n rule: numberToString.induct)
  case (1 n)
  show ?case
  proof (cases "n < 10")
    case True
    then show ?thesis
      by (subst numberToString.simps) (simp add: isDigit_def unat_digit del: of_nat_add)
  next
    case False
    have "n mod 10 < 10" by simp
    then have "isDigit (of_nat (48 + n mod 10))"
      unfolding isDigit_def by (simp only: unat_digit) simp
    then show ?thesis
      using False "1.IH" by (subst numberToString.simps) simp
  qed
qed

lemma numberToString_nonempty: "numberToString n \<noteq> []"
  by (subst numberToString.simps) simp

lemma digit_facts: "isDigit c \<Longrightarrow> c \<noteq> TAB \<and> c \<noteq> NL \<and> \<not> isWhiteSpace c"
  by (auto simp: isDigit_def TAB_def NL_def isWhiteSpace_def)

lemma split_from_no_sep: "sep \<notin> set s \<Longrightarrow> split_from sep cur s = [cur @ s]"
  by (induction s arbitrary: cur) auto

lemma split_from_field:
  "sep \<notin> set f \<Longrightarrow> split_from sep cur (f @ sep # rest) = (cur @ f) # split_from sep [] rest"
  by (induction f arbitrary: cur) auto

lemma generateTSVData_loop_concat:
  "generateTSVData_loop rs tsv = tsv @ concat (map tsvRow rs)"
  by (induction rs arbitrary: tsv) simp_all

lemma generateMarkdownTable_loop_concat:
  "generateMarkdownTable_loop rs table = table @ concat (map tableRow rs)"
  by (induction rs arbitrary: table) simp_all


lemma tsvRow_line: "tsvRow r = tsvLine r @ [NL]"
  by (simp add: tsvLine_def tsvRow_def Let_def butlast_append)

lemma tsvHeader_line: "tsvHeader = tsvHeaderLine @ [NL]"
  by (simp add: tsvHeaderLine_def tsvHeader_def NL_def)

lemma generateTSVData_lines:
  "generateTSVData rs =
     concat (map (\<lambda>l. l @ [NL]) (tsvHeaderLine # map tsvLine rs))"
proof -
  have "tsvRow = (\<lambda>l. l @ [NL]) \<circ> tsvLine"
    by (rule ext) (simp add: tsvRow_line)
  then show ?thesis
    by (simp add: generateTSVData_def generateTSVData_loop_concat tsvHeader_line)
qed

lemma unlines_join:
  "ls \<noteq> [] \<Longrightarrow> concat (map (\<lambda>l. l @ [NL]) ls) = join_str ls [NL] @ [NL]"
  by (induction ls "[NL]" rule: join_str.induct) simp_all

lemma split_join:
  "ls \<noteq> [] \<Longrightarrow> list_all (\<lambda>l. NL \<notin> set l) ls \<Longrightarrow>
     split_from NL cur (join_str ls [NL]) = (cur @ hd ls) # tl ls"
proof (induction ls "[NL]" arbitrary: cur rule: join_str.induct)
  case 1
  then show ?case by simp
next
  case (2 x)
  then show ?case by (simp add: split_from_no_sep)
next
  case (3 x y ys)
  then show ?case by (simp add: split_from_field)
qed

lemma hd_join: "ls \<noteq> [] \<Longrightarrow> hd ls \<noteq> [] \<Longrightarrow> hd (join_str ls [NL]) = hd (hd ls)"
  by (induction ls "[NL]" rule: join_str.induct) simp_all

lemma join_last_nonempty: "ls \<noteq> [] \<Longrightarrow> last ls \<noteq> [] \<Longrightarrow> join_str ls [NL] \<noteq> []"
  by (induction ls "[NL]" rule: join_str.induct) simp_all

lemma last_join: "ls \<noteq> [] \<Longrightarrow> last ls \<noteq> [] \<Longrightarrow> last (join_str ls [NL]) = last (last ls)"
proof (induction ls "[NL]" rule: join_str.induct)
  case 1
  then show ?case by simp
next
  case (2 x)
  then show ?case by simp
next
  case (3 x y ys)
  then have n: "join_str (y # ys) [NL] \<noteq> []"
    using join_last_nonempty [of "y # ys"] by simp
  have "last (join_str (x # y # ys) [NL]) = last (join_str (y # ys) [NL])"
    using n by simp
  then show ?case
    using 3 by simp
qed

lemma join_nonempty: "ls \<noteq> [] \<Longrightarrow> hd ls \<noteq> [] \<Longrightarrow> join_str ls [NL] \<noteq> []"
  by (induction ls "[NL]" rule: join_str.induct) simp_all

lemma isWhiteSpace_NL: "isWhiteSpace NL"
  by (simp add: isWhiteSpace_def NL_def)

lemma trim_line_end:
  assumes "s \<noteq> []" "\<not> isWhiteSpace (hd s)" "\<not> isWhiteSpace (last s)"
  shows "trim (s @ [NL]) = s"
proof -
  from assms(1,2) have a: "dropWhile isWhiteSpace (s @ [NL]) = s @ [NL]"
    by (cases s) simp_all
  from assms(1,3) have b: "dropWhile isWhiteSpace (rev s) = rev s"
    by (cases s rule: rev_cases) simp_all
  show ?thesis
    by (simp add: trim_def a b isWhiteSpace_NL)
qed


lemma replaceAll_clean:
  "TAB \<notin> set (replaceAll isTabOrLineBreak [SPACE] s) \<and>
   NL \<notin> set (replaceAll isTabOrLineBreak [SPACE] s)"
  by (induction s) (auto simp: replaceAll_def isTabOrLineBreak_def SPACE_def TAB_def NL_def)

lemma numberToString_clean:
  "TAB \<notin> set (numberToString n) \<and> NL \<notin> set (numberToString n)"
  using numberToString_digits [of n] digit_facts by (auto simp: list_all_iff)

lemma numberToString_last: "\<not> isWhiteSpace (last (numberToString n))"
proof -
  have "last (numberToString n) \<in> set (numberToString n)"
    by (simp add: numberToString_nonempty)
  then show ?thesis
    using numberToString_digits [of n] digit_facts by (auto simp: list_all_iff)
qed

lemma tsvLine_fields:
  "tsvLine r =
     studentId r @ TAB # studentName r @ TAB #
     replaceAll isTabOrLineBreak [SPACE] (activityContent r) @ TAB #
     replaceAll isTabOrLineBreak [SPACE] (observation r) @ TAB #
     numberToString (charCount r) @ TAB # numberToString (byteCount r)"
  by (simp add: tsvLine_def tsvRow_def Let_def butlast_append numberToString_nonempty)

lemma split_tsvLine:
  assumes "TAB \<notin> set (studentId r)" "TAB \<notin> set (studentName r)"
  shows "split_str (tsvLine r) TAB =
     [studentId r, studentName r,
      replaceAll isTabOrLineBreak [SPACE] (activityContent r),
      replaceAll isTabOrLineBreak [SPACE] (observation r),
      numberToString (charCount r), numberToString (byteCount r)]"
  using assms
  by (simp add: split_str_def tsvLine_fields split_from_field split_from_no_sep
      replaceAll_clean numberToString_clean)

lemma NL_neq_TAB: "NL \<noteq> TAB"
  by (simp add: NL_def TAB_def)

lemma tsvLine_no_NL:
  "NL \<notin> set (studentId r) \<Longrightarrow> NL \<notin> set (studentName r) \<Longrightarrow> NL \<notin> set (tsvLine r)"
  by (simp add: tsvLine_fields replaceAll_clean numberToString_clean NL_neq_TAB)

lemma tsvLine_last: "tsvLine r \<noteq> [] \<and> \<not> isWhiteSpace (last (tsvLine r))"
  by (simp add: tsvLine_fields numberToString_nonempty numberToString_last)

lemma split_tsvHeaderLine:
  "split_str tsvHeaderLine TAB =
     [[0xD559, 0xBC88], [0xC131, 0xBA85], [0xD559, 0xC0DD, 0xD65C, 0xB3D9, 0xAE30, 0xB85D],
      [0xAD50, 0xC0AC, 0xAD00, 0xCC30, 0xAE30, 0xB85D], [0xAE00, 0xC790, 0x20, 0xC218],
      [0xBC14, 0xC774, 0xD2B8, 0x20, 0xC218]]"
  by (simp add: tsvHeaderLine_def tsvHeader_def split_str_def TAB_def)

lemma tsvHeaderLine_facts:
  "tsvHeaderLine \<noteq> [] \<and> NL \<notin> set tsvHeaderLine \<and>
   \<not> isWhiteSpace (hd tsvHeaderLine) \<and> \<not> isWhiteSpace (last tsvHeaderLine)"
  by (simp add: tsvHeaderLine_def tsvHeader_def NL_def isWhiteSpace_def)

lemma idName_header: "idName (activityOfParts (split_str tsvHeaderLine TAB)) = headerPair"
  by (simp add: split_tsvHeaderLine idName_def activityOfParts_def headerPair_def
      trim_def isWhiteSpace_def)

lemma idName_tsvLine:
  "hasCleanKeys r \<Longrightarrow> idName (activityOfParts (split_str (tsvLine r) TAB)) = idName r"
  by (simp add: hasCleanKeys_def isCleanField_def split_tsvLine idName_def activityOfParts_def)

lemma recordsOfLines_Cons:
  "recordsOfLines (l # ls) =
     (if 3 \<le> length (split_str l TAB) then [activityOfParts (split_str l TAB)] else []) @
     recordsOfLines ls"
  by (simp add: recordsOfLines_def)

lemma recordsOfLines_tsvLines:
  "list_all hasCleanKeys rs \<Longrightarrow>
     map idName (recordsOfLines (map tsvLine rs)) = map idName rs"
proof (induction rs)
  case Nil
  then show ?case by (simp add: recordsOfLines_def)
next
  case (Cons r rs)
  then have c: "hasCleanKeys r" by simp
  then have "length (split_str (tsvLine r) TAB) = 6"
    by (simp add: hasCleanKeys_def isCleanField_def split_tsvLine)
  then show ?case
    using Cons c by (simp add: recordsOfLines_Cons idName_tsvLine)
qed

lemma parse_generated_lines:
  assumes "list_all hasCleanKeys rs"
  shows "parseTSV (generateTSVData rs) =
     recordsOfLines (tsvHeaderLine # map tsvLine rs)"
proof -
  let ?ls = "tsvHeaderLine # map tsvLine rs"
  have nl: "list_all (\<lambda>l. NL \<notin> set l) ?ls"
    using assms tsvHeaderLine_facts
    by (auto simp: list_all_iff hasCleanKeys_def isCleanField_def tsvLine_no_NL)
  have lastl: "last ?ls \<noteq> [] \<and> \<not> isWhiteSpace (last (last ?ls))"
    using tsvHeaderLine_facts tsvLine_last by (simp add: last_map)
  have j: "join_str ?ls [NL] \<noteq> []"
    using tsvHeaderLine_facts join_nonempty [of ?ls] by simp
  have h: "\<not> isWhiteSpace (hd (join_str ?ls [NL]))"
    using tsvHeaderLine_facts hd_join [of ?ls] by simp
  have l: "\<not> isWhiteSpace (last (join_str ?ls [NL]))"
    using lastl last_join [of ?ls] by simp
  have "generateTSVData rs = join_str ?ls [NL] @ [NL]"
    using unlines_join [of ?ls] by (simp add: generateTSVData_lines)
  then have "trim (generateTSVData rs) = join_str ?ls [NL]"
    using trim_line_end [OF j h l] by simp
  moreover have "split_str (join_str ?ls [NL]) NL = ?ls"
    using split_join [of ?ls "[]"] nl by (simp add: split_str_def)
  ultimately show ?thesis
    by (simp add: parseTSV_records)
qed

lemma trim_prefix: "\<exists>w. dropWhile isWhiteSpace s = trim s @ w"
proof -
  have "rev (dropWhile isWhiteSpace s) =
      takeWhile isWhiteSpace (rev (dropWhile isWhiteSpace s)) @
      dropWhile isWhiteSpace (rev (dropWhile isWhiteSpace s))"
    by simp
  then have "dropWhile isWhiteSpace s =
      trim s @ rev (takeWhile isWhiteSpace (rev (dropWhile isWhiteSpace s)))"
    unfolding trim_def by (metis rev_append rev_rev_ident)
  then show ?thesis ..
qed

lemma set_trim: "set (trim s) \<subseteq> set s"
proof -
  obtain w where "dropWhile isWhiteSpace s = trim s @ w"
    using trim_prefix by blast
  then have "set (trim s) \<subseteq> set (dropWhile isWhiteSpace s)"
    by simp
  then show ?thesis
    using set_dropWhileD by fastforce
qed

lemma trim_hd: "trim s \<noteq> [] \<Longrightarrow> \<not> isWhiteSpace (hd (trim s))"
proof -
  assume n: "trim s \<noteq> []"
  obtain w where w: "dropWhile isWhiteSpace s = trim s @ w"
    using trim_prefix by blast
  then have "hd (dropWhile isWhiteSpace s) = hd (trim s)" "dropWhile isWhiteSpace s \<noteq> []"
    using n by simp_all
  then show ?thesis
    using hd_dropWhile [of isWhiteSpace s] by simp
qed

lemma trim_idem: "trim (trim s) = trim s"
proof (cases "trim s = []")
  case True
  have "trim [] = []"
    by (simp add: trim_def)
  then show ?thesis
    using True by simp
next
  case False
  then have a: "dropWhile isWhiteSpace (trim s) = trim s"
    using trim_hd [of s] by (cases "trim s") simp_all
  have "rev (trim s) = dropWhile isWhiteSpace (rev (dropWhile isWhiteSpace s))"
    by (simp add: trim_def)
  then have b: "dropWhile isWhiteSpace (rev (trim s)) = rev (trim s)"
    by simp
  show ?thesis
    unfolding trim_def [of "trim s"] by (simp only: a b rev_rev_ident)
qed

lemma split_from_fields:
  "f \<in> set (split_from sep cur s) \<Longrightarrow> sep \<notin> set cur \<Longrightarrow>
     sep \<notin> set f \<and> set f \<subseteq> set cur \<union> set s"
proof (induction s arbitrary: cur)
  case Nil
  then show ?case by simp
next
  case (Cons c s)
  show ?case
  proof (cases "c = sep")
    case True
    then have "f = cur \<or> f \<in> set (split_from sep [] s)"
      using Cons.prems(1) by simp
    then show ?thesis
      using Cons.IH [of "[]"] Cons.prems(2) by auto
  next
    case False
    then have "f \<in> set (split_from sep (cur @ [c]) s)"
      using Cons.prems(1) by simp
    then show ?thesis
      using Cons.IH [of "cur @ [c]"] Cons.prems(2) False by auto
  qed
qed

lemma split_str_fields:
  "f \<in> set (split_str s sep) \<Longrightarrow> sep \<notin> set f \<and> set f \<subseteq> set s"
  using split_from_fields [of f sep "[]" s] by (simp add: split_str_def)

lemma clean_trimmed_field:
  assumes "line \<in> set (split_str d NL)" "f \<in> set (split_str line TAB)"
  shows "isCleanField (trim f)"
proof -
  have "NL \<notin> set line"
    using assms(1) split_str_fields by blast
  moreover have "TAB \<notin> set f" "set f \<subseteq> set line"
    using assms(2) split_str_fields by blast+
  ultimately have "TAB \<notin> set (trim f)" "NL \<notin> set (trim f)"
    using set_trim [of f] by blast+
  then show ?thesis
    by (simp add: isCleanField_def trim_idem)
qed

lemma parseTSV_clean_keys: "list_all hasCleanKeys (parseTSV data)"
proof -
  have "hasCleanKeys (activityOfParts (split_str line TAB))"
    if "line \<in> set (split_str (trim data) NL)" "3 \<le> length (split_str line TAB)" for line
  proof -
    have "split_str line TAB ! 0 \<in> set (split_str line TAB)"
      "split_str line TAB ! 1 \<in> set (split_str line TAB)"
      using that(2) by (simp_all only: nth_mem) 
    then show ?thesis
      using that(1) clean_trimmed_field
      by (simp add: hasCleanKeys_def activityOfParts_def)
  qed
  then show ?thesis
    by (auto simp: parseTSV_records recordsOfLines_def list_all_iff)
qed

lemma reparse_clean:
  assumes "list_all hasCleanKeys rs"
  shows "map idName (parseTSV (generateTSVData rs)) = headerPair # map idName rs"
proof -
  have "length (split_str tsvHeaderLine TAB) = 6"
    by (simp add: split_tsvHeaderLine)
  then show ?thesis
    using assms by (simp add: parse_generated_lines recordsOfLines_Cons idName_header
        recordsOfLines_tsvLines)
qed

lemmas export_eval =
  generateTSVData_def tsvRow_def tsvHeader_def replaceAll_def isTabOrLineBreak_def
  numberToString.simps [of "Suc 0"] CR_def headerPair_def idName_def

text \<open>
  Claim C7, as stated, expects the pairs of the records back. The export starts with a
  header line of six column titles, which the parser reads as a record: one record
  with keys \<open>1\<close> and \<open>A\<close> comes back as two pairs, the header's first. And a key with
  a tab inside, \<open>1 TAB 2\<close>, comes back split: the pair \<open>(1, 2)\<close>.
\<close>

theorem reparse_export_counterexample:
  "map idName (parseTSV (generateTSVData
      [\<lparr>studentId = [0x31], studentName = [0x41], activityContent = [0x78],
        observation = [0x79], charCount = 1, byteCount = 1\<rparr>])) =
     [headerPair, ([0x31], [0x41])] \<and>
   map idName (parseTSV (generateTSVData
      [\<lparr>studentId = [0x31], studentName = [0x41], activityContent = [0x78],
        observation = [0x79], charCount = 1, byteCount = 1\<rparr>])) \<noteq>
     map idName [\<lparr>studentId = [0x31], studentName = [0x41], activityContent = [0x78],
        observation = [0x79], charCount = 1, byteCount = 1\<rparr>] \<and>
   map idName (parseTSV (generateTSVData
      [\<lparr>studentId = [0x31, TAB, 0x32], studentName = [0x41], activityContent = [0x78],
        observation = [0x79], charCount = 1, byteCount = 1\<rparr>])) =
     [headerPair, ([0x31], [0x32])]"
  by (simp add: export_eval parse_eval)

text \<open>
  Claim C7, amended. For every sequence of observation records whose \<open>studentId\<close> and
  \<open>studentName\<close> are trimmed and hold no tab and no newline, parsing the export
  gives the pair of the header line, then the pairs of the records in their order.
  Every record that \<open>parseTSV\<close> produces has such keys.
\<close>

theorem reparse_export:
  "(list_all hasCleanKeys rs \<longrightarrow>
      map idName (parseTSV (generateTSVData rs)) = headerPair # map idName rs) \<and>
   list_all hasCleanKeys (parseTSV data)"
  using reparse_clean parseTSV_clean_keys by blast

text \<open>The theorem of C7 at two records, the second with empty keys.\<close>

theorem reparse_export_witness:
  "list_all hasCleanKeys
     [\<lparr>studentId = [0x31], studentName = [0x41], activityContent = [0x78, TAB, NL],
       observation = [0x79], charCount = 1, byteCount = 1\<rparr>,
      \<lparr>studentId = [], studentName = [], activityContent = [],
       observation = [], charCount = 0, byteCount = 0\<rparr>] \<and>
   map idName (parseTSV (generateTSVData
     [\<lparr>studentId = [0x31], studentName = [0x41], activityContent = [0x78, TAB, NL],
       observation = [0x79], charCount = 1, byteCount = 1\<rparr>,
      \<lparr>studentId = [], studentName = [], activityContent = [],
       observation = [], charCount = 0, byteCount = 0\<rparr>])) =
     [headerPair, ([0x31], [0x41]), ([], [])]"
proof -
  have c: "list_all hasCleanKeys
     [\<lparr>studentId = [0x31], studentName = [0x41], activityContent = [0x78, TAB, NL],
       observation = [0x79], charCount = 1, byteCount = 1\<rparr>,
      \<lparr>studentId = [], studentName = [], activityContent = [],
       observation = [], charCount = 0, byteCount = 0\<rparr>]"
    by (simp add: hasCleanKeys_def isCleanField_def trim_def isWhiteSpace_def TAB_def NL_def)
  show ?thesis
    using c reparse_export [of
     "[\<lparr>studentId = [0x31], studentName = [0x41], activityContent = [0x78, TAB, NL],
       observation = [0x79], charCount = 1, byteCount = 1\<rparr>,
      \<lparr>studentId = [], studentName = [], activityContent = [],
       observation = [], charCount = 0, byteCount = 0\<rparr>]" "[]"]
    by (simp add: idName_def)
qed

section \<open>The parser and the outer white space of the input\<close>





text \<open>
  Claim C3. The claim has \<open>parseTSV\<close> keep exactly the lines with at least 3 fields
  and build each record from the fields of its line. The code trims the whole input
  first, which also removes tabs that belong to the first and the last row. So the row
  \<open>a TAB b TAB\<close> gives the record \<open>(a, b, empty)\<close> when another row follows and
  no record when it is the last row, and the row \<open>TAB A TAB B TAB C\<close>, whose student
  number is empty, is read as \<open>(A, B, C)\<close> when it is the first row. The sample line of
  the claim is parsed as the claim says.
\<close>

theorem parseTSV_row_dropped_by_position:
  "parseTSV ([0x61, TAB, 0x62, TAB] @ [NL] @ [0x63, TAB, 0x64, TAB, 0x65]) =
     [\<lparr>studentId = [0x61], studentName = [0x62], activityContent = []\<rparr>,
      \<lparr>studentId = [0x63], studentName = [0x64], activityContent = [0x65]\<rparr>] \<and>
   parseTSV ([0x63, TAB, 0x64, TAB, 0x65] @ [NL] @ [0x61, TAB, 0x62, TAB]) =
     [\<lparr>studentId = [0x63], studentName = [0x64], activityContent = [0x65]\<rparr>] \<and>
   recordsOfLines (split_str ([0x63, TAB, 0x64, TAB, 0x65] @ [NL] @ [0x61, TAB, 0x62, TAB]) NL) =
     [\<lparr>studentId = [0x63], studentName = [0x64], activityContent = [0x65]\<rparr>,
      \<lparr>studentId = [0x61], studentName = [0x62], activityContent = []\<rparr>] \<and>
   parseTSV [0x61, TAB, 0x62, TAB] = [] \<and>
   recordsOfLines (split_str [0x61, TAB, 0x62, TAB] NL) =
     [\<lparr>studentId = [0x61], studentName = [0x62], activityContent = []\<rparr>] \<and>
   parseTSV [TAB, 0x41, TAB, 0x42, TAB, 0x43] =
     [\<lparr>studentId = [0x41], studentName = [0x42], activityContent = [0x43]\<rparr>] \<and>
   recordsOfLines (split_str [TAB, 0x41, TAB, 0x42, TAB, 0x43] NL) =
     [\<lparr>studentId = [], studentName = [0x41], activityContent = [0x42, SPACE, 0x43]\<rparr>] \<and>
   parseTSV exampleLine =
     [\<lparr>studentId = ascii ''10101'', studentName = exampleName,
       activityContent = exampleContent\<rparr>]"
  by (simp add: exampleLine_def exampleName_def exampleContent_def parse_eval)




section \<open>The conversion pipeline\<close>

lemma processActivity_step:
  assumes "generate api settings activity target (world s) = (result, w1)"
  shows "records (processActivity api settings target len i activity s) =
           records s @ [observationRecordOf activity result]"
    and "world (processActivity api settings target len i activity s) = w1"
    and "errorCount (processActivity api settings target len i activity s) =
           errorCount s + (if isl result then 1 else 0)"
  using assms
  by (cases result;
      simp add: processActivity_def Let_def observationRecordOf_def failureRecord_def
        successRecord_def)+

lemma attempts_Cons:
  "attempts api settings target (a # as) w =
     (fst (generate api settings a target w) #
        fst (attempts api settings target as (snd (generate api settings a target w))),
      snd (attempts api settings target as (snd (generate api settings a target w))))"
  by (simp split: prod.splits)

lemma length_attempts: "length (fst (attempts api settings target as w)) = length as"
  by (induction as arbitrary: w) (simp_all add: attempts_Cons del: attempts.simps(2))


lemma loop_attempts:
  "records (processConversion_loop api settings target activities i s) =
     records s @
       map2 observationRecordOf (drop i activities)
         (fst (attempts api settings target (drop i activities) (world s))) \<and>
   world (processConversion_loop api settings target activities i s) =
     snd (attempts api settings target (drop i activities) (world s)) \<and>
   errorCount (processConversion_loop api settings target activities i s) =
     errorCount s +
       length (filter isl (fst (attempts api settings target (drop i activities) (world s))))"
proof (induction api settings target activities i s rule: processConversion_loop.induct)
  case (1 api settings target activities i s)
  show ?case
  proof (cases "i < length activities")
    case False
    then show ?thesis
      by (subst (1 2 3) processConversion_loop.simps) simp
  next
    case True
    let ?a = "activities ! i"
    let ?g = "generate api settings ?a target (world s)"
    let ?n = "processActivity api settings target (length activities) i ?a s"
    have g: "?g = (fst ?g, snd ?g)"
      by simp
    have d: "drop i activities = ?a # drop (i + 1) activities"
      using True by (simp add: Cons_nth_drop_Suc)
    have step: "processConversion_loop api settings target activities i s =
        processConversion_loop api settings target activities (i + 1) ?n"
      using True by (subst processConversion_loop.simps) simp
    show ?thesis
      using "1.IH" [OF True]
      by (simp only: step d attempts_Cons)
         (simp add: processActivity_step [OF g])
  qed
qed

lemma truncate_observationRecordOf: "StudentActivity.truncate (observationRecordOf a r) = a"
  by (cases r)
     (simp_all add: observationRecordOf_def failureRecord_def successRecord_def
        StudentActivity.truncate_def)

lemma map_truncate_records:
  "length rs = length as \<Longrightarrow>
     map StudentActivity.truncate (map2 observationRecordOf as rs) = as"
  by (induction as rs rule: list_induct2') (simp_all add: truncate_observationRecordOf)

lemma rowStart_truncate: "rowStart (StudentActivity.truncate r) = rowStart r"
  by (simp add: rowStart_def StudentActivity.truncate_def)

lemma hasCleanKeys_truncate: "hasCleanKeys (StudentActivity.truncate r) = hasCleanKeys r"
  by (simp add: hasCleanKeys_def StudentActivity.truncate_def)


lemma split_lines:
  "list_all (\<lambda>l. NL \<notin> set l) ls \<Longrightarrow>
     split_from NL [] (concat (map (\<lambda>l. l @ [NL]) ls)) = ls @ [[]]"
  by (induction ls) (simp_all add: split_from_field)

lemma tableRow_line: "tableRow r = tableLine r @ [NL]"
  by (simp add: tableLine_def tableRow_def Let_def butlast_append)

lemma NL_ascii: "NL \<notin> set (ascii ''| '') \<and> NL \<notin> set (ascii '' | '') \<and> NL \<notin> set (ascii '' |'')"
  by (simp add: ascii_def NL_def)

lemma replace_NL: "NL \<notin> set (replaceAll (\<lambda>c. c = NL) [SPACE] s)"
  by (induction s) (auto simp: replaceAll_def SPACE_def NL_def)

lemma tableLine_parts:
  "tableLine r =
     rowStart r @
     replaceAll (\<lambda>c. c = NL) [SPACE]
       (replaceAll (\<lambda>c. c = PIPE) [BACKSLASH, PIPE] (activityContent r)) @ ascii '' | '' @
     replaceAll (\<lambda>c. c = NL) [SPACE]
       (replaceAll (\<lambda>c. c = PIPE) [BACKSLASH, PIPE] (observation r)) @ ascii '' | '' @
     numberToString (charCount r) @ ascii '' | '' @ numberToString (byteCount r) @ ascii '' |''"
  by (simp add: tableLine_def tableRow_def rowStart_def Let_def butlast_append ascii_def)

lemma tableLine_no_NL:
  "NL \<notin> set (studentId r) \<Longrightarrow> NL \<notin> set (studentName r) \<Longrightarrow> NL \<notin> set (tableLine r)"
  by (simp add: tableLine_parts rowStart_def NL_ascii replace_NL numberToString_clean)

lemma tableLine_start: "take (length (rowStart r)) (tableLine r) = rowStart r"
  by (simp add: tableLine_parts)

lemma header_lines:
  "tableHeader = butlast tableHeader @ [NL] \<and> tableSeparator = butlast tableSeparator @ [NL] \<and>
   NL \<notin> set (butlast tableHeader) \<and> NL \<notin> set (butlast tableSeparator)"
  by (simp add: tableHeader_def tableSeparator_def ascii_def NL_def)

lemma generateMarkdownTable_lines:
  "generateMarkdownTable rs =
     concat (map (\<lambda>l. l @ [NL]) (butlast tableHeader # butlast tableSeparator # map tableLine rs))"
proof -
  have "tableRow = (\<lambda>l. l @ [NL]) \<circ> tableLine"
    by (rule ext) (simp add: tableRow_line)
  then have "concat (map tableRow rs) = concat (map (\<lambda>l. l @ [NL]) (map tableLine rs))"
    by simp
  moreover have "tableHeader @ tableSeparator =
      butlast tableHeader @ [NL] @ butlast tableSeparator @ [NL]"
    using header_lines by (metis append_assoc)
  ultimately show ?thesis
    by (simp add: generateMarkdownTable_def generateMarkdownTable_loop_concat)
qed

lemma table_rows_in_order:
  assumes "list_all hasCleanKeys rs"
  shows "tableRowsInOrder (map rowStart rs) (generateMarkdownTable rs)"
proof -
  let ?ls = "butlast tableHeader # butlast tableSeparator # map tableLine rs"
  have "list_all (\<lambda>l. NL \<notin> set l) (map tableLine rs)"
    using assms
    by (auto simp: list_all_iff hasCleanKeys_def isCleanField_def tableLine_no_NL)
  then have "list_all (\<lambda>l. NL \<notin> set l) ?ls"
    using header_lines by simp
  then have s: "split_str (generateMarkdownTable rs) NL = ?ls @ [[]]"
    unfolding split_str_def generateMarkdownTable_lines by (rule split_lines)
  have "list_all2 (\<lambda>start l. take (length start) l = start) (map rowStart rs) (map tableLine rs)"
    by (simp add: list_all2_map1 list_all2_map2 list_all2_same tableLine_start)
  then show ?thesis
    by (simp add: tableRowsInOrder_def s Let_def)
qed




lemma createResultNote_content:
  "createResultNote h settings fileName rs w = (Inr note, w1) \<Longrightarrow>
     totalCount note = length rs \<and> resultTable note = generateMarkdownTable rs"
  by (auto simp: createResultNote_def Let_def split: prod.splits option.splits sum.splits if_splits)

lemma processConversion_run:
  assumes "parseTSV data \<noteq> []"
  shows "processConversion api h settings fileName data target w =
     (case createResultNote h settings fileName
             (records (processConversion_loop api settings target (parseTSV data) 0
                \<lparr>records = [], errorCount = 0, world = w, events = []\<rparr>))
             (world (processConversion_loop api settings target (parseTSV data) 0
                \<lparr>records = [], errorCount = 0, world = w, events = []\<rparr>)) of
        (Inl error, w1) \<Rightarrow>
          Rejected error
            (processConversion_loop api settings target (parseTSV data) 0
               \<lparr>records = [], errorCount = 0, world = w, events = []\<rparr>) w1
      | (Inr note, w1) \<Rightarrow>
          Converted
            (processConversion_loop api settings target (parseTSV data) 0
               \<lparr>records = [], errorCount = 0, world = w, events = []\<rparr>)
            note
            (if errorCount (processConversion_loop api settings target (parseTSV data) 0
                  \<lparr>records = [], errorCount = 0, world = w, events = []\<rparr>) > 0
             then FailuresNotice
               (length (records (processConversion_loop api settings target (parseTSV data) 0
                  \<lparr>records = [], errorCount = 0, world = w, events = []\<rparr>)) -
                errorCount (processConversion_loop api settings target (parseTSV data) 0
                  \<lparr>records = [], errorCount = 0, world = w, events = []\<rparr>))
               (errorCount (processConversion_loop api settings target (parseTSV data) 0
                  \<lparr>records = [], errorCount = 0, world = w, events = []\<rparr>))
             else CompleteNotice
               (length (records (processConversion_loop api settings target (parseTSV data) 0
                  \<lparr>records = [], errorCount = 0, world = w, events = []\<rparr>))))
            w1)"
  using assms by (simp add: processConversion_def Let_def)

lemma run_records:
  "records (processConversion_loop api settings target as 0
      \<lparr>records = [], errorCount = 0, world = w, events = []\<rparr>) =
     map2 observationRecordOf as (fst (attempts api settings target as w))"
  and run_world:
  "world (processConversion_loop api settings target as 0
      \<lparr>records = [], errorCount = 0, world = w, events = []\<rparr>) =
     snd (attempts api settings target as w)"
  and run_errorCount:
  "errorCount (processConversion_loop api settings target as 0
      \<lparr>records = [], errorCount = 0, world = w, events = []\<rparr>) =
     length (filter isl (fst (attempts api settings target as w)))"
  using loop_attempts [of api settings target as 0
      "\<lparr>records = [], errorCount = 0, world = w, events = []\<rparr>"]
  by simp_all











lemma run_truncate:
  "map StudentActivity.truncate
     (records (processConversion_loop api settings target as 0
        \<lparr>records = [], errorCount = 0, world = w, events = []\<rparr>)) = as"
  using map_truncate_records [OF length_attempts [of api settings target as w]]
  by (simp only: run_records)

lemma run_table:
  "tableRowsInOrder (map rowStart (parseTSV data))
     (generateMarkdownTable
        (records (processConversion_loop api settings target (parseTSV data) 0
           \<lparr>records = [], errorCount = 0, world = w, events = []\<rparr>)))"
proof -
  let ?s = "processConversion_loop api settings target (parseTSV data) 0
           \<lparr>records = [], errorCount = 0, world = w, events = []\<rparr>"
  have trunc: "map StudentActivity.truncate (records ?s) = parseTSV data"
    by (rule run_truncate)
  have "list_all hasCleanKeys (map StudentActivity.truncate (records ?s))"
    using parseTSV_clean_keys [of data] by (simp only: trunc)
  then have keys: "list_all hasCleanKeys (records ?s)"
    by (simp add: list_all_iff hasCleanKeys_truncate)
  have "map rowStart (map StudentActivity.truncate (records ?s)) = map rowStart (parseTSV data)"
    by (simp only: trunc)
  then have starts: "map rowStart (records ?s) = map rowStart (parseTSV data)"
    by (simp add: rowStart_truncate comp_def)
  show ?thesis
    using table_rows_in_order [OF keys] by (simp add: starts)
qed

text \<open>
  Claim C6. Whatever the vendor calls do, the pipeline produces one observation record
  per input record, carrying the three fields of that input record, in input order. The
  rendered Markdown table, split at its line ends, is the two header lines followed by
  one line per record in that order, each beginning with the student number and the name
  of its record between bars. This holds for the loop on any list of activities, for
  the table of any records with clean keys, and for \<open>processConversion\<close> as a whole,
  which either finds no row, or is rejected by the host after the loop, or ends with such
  records and table.
\<close>

theorem order_preserved:
  "(case processConversion api h settings fileName data target w of
      NoData \<Rightarrow> parseTSV data = []
    | Rejected error s w1 \<Rightarrow> map StudentActivity.truncate (records s) = parseTSV data
    | Converted s content shown w1 \<Rightarrow>
        length (records s) = length (parseTSV data) \<and>
        map StudentActivity.truncate (records s) = parseTSV data \<and>
        tableRowsInOrder (map rowStart (parseTSV data)) (resultTable content)) \<and>
   map StudentActivity.truncate
     (records (processConversion_loop api settings target activities 0
        \<lparr>records = [], errorCount = 0, world = w, events = []\<rparr>)) = activities \<and>
   (list_all hasCleanKeys rs \<longrightarrow>
      tableRowsInOrder (map rowStart rs) (generateMarkdownTable rs))"
proof (intro conjI impI)
  let ?s = "processConversion_loop api settings target (parseTSV data) 0
        \<lparr>records = [], errorCount = 0, world = w, events = []\<rparr>"
  show "case processConversion api h settings fileName data target w of
      NoData \<Rightarrow> parseTSV data = []
    | Rejected error s w1 \<Rightarrow> map StudentActivity.truncate (records s) = parseTSV data
    | Converted s content shown w1 \<Rightarrow>
        length (records s) = length (parseTSV data) \<and>
        map StudentActivity.truncate (records s) = parseTSV data \<and>
        tableRowsInOrder (map rowStart (parseTSV data)) (resultTable content)"
  proof (cases "parseTSV data = []")
    case True
    then show ?thesis
      by (simp add: processConversion_def)
  next
    case False
    have len: "length (records ?s) = length (parseTSV data)"
      using run_truncate [of api settings target "parseTSV data" w] by (metis length_map)
    show ?thesis
    proof (cases "createResultNote h settings fileName (records ?s) (world ?s)")
      case (Pair r w1)
      show ?thesis
      proof (cases r)
        case (Inl error)
        then show ?thesis
          using Pair by (simp add: processConversion_run [OF False] run_truncate)
      next
        case (Inr content)
        then have "resultTable content = generateMarkdownTable (records ?s)"
          using Pair
            createResultNote_content [of h settings fileName "records ?s" "world ?s" content w1]
          by simp
        then show ?thesis
          using Pair Inr len run_table [of data api settings target w]
          by (simp add: processConversion_run [OF False] run_truncate)
      qed
    qed
  qed
next
  show "map StudentActivity.truncate
     (records (processConversion_loop api settings target activities 0
        \<lparr>records = [], errorCount = 0, world = w, events = []\<rparr>)) = activities"
    by (rule run_truncate)
next
  assume "list_all hasCleanKeys rs"
  then show "tableRowsInOrder (map rowStart rs) (generateMarkdownTable rs)"
    by (rule table_rows_in_order)
qed

text \<open>
  The theorem of C6 on a generated record whose observation holds a bar and a newline
  and on a placeholder record: the five lines of the table.
\<close>

theorem order_preserved_witness:
  "list_all hasCleanKeys
     [\<lparr>studentId = [0x31], studentName = [0x41], activityContent = [0x78],
       observation = [0x61, PIPE, 0x62, NL, 0x63], charCount = 5, byteCount = 5\<rparr>,
      \<lparr>studentId = [0x32], studentName = [0x42], activityContent = [0x79],
       observation = [0x5B, 0x5D], charCount = 0, byteCount = 0\<rparr>] \<and>
   tableRowsInOrder [ascii ''| 1 | A | '', ascii ''| 2 | B | '']
     (generateMarkdownTable
        [\<lparr>studentId = [0x31], studentName = [0x41], activityContent = [0x78],
          observation = [0x61, PIPE, 0x62, NL, 0x63], charCount = 5, byteCount = 5\<rparr>,
         \<lparr>studentId = [0x32], studentName = [0x42], activityContent = [0x79],
          observation = [0x5B, 0x5D], charCount = 0, byteCount = 0\<rparr>]) \<and>
   split_str
     (generateMarkdownTable
        [\<lparr>studentId = [0x31], studentName = [0x41], activityContent = [0x78],
          observation = [0x61, PIPE, 0x62, NL, 0x63], charCount = 5, byteCount = 5\<rparr>,
         \<lparr>studentId = [0x32], studentName = [0x42], activityContent = [0x79],
          observation = [0x5B, 0x5D], charCount = 0, byteCount = 0\<rparr>]) NL =
     [butlast tableHeader, butlast tableSeparator,
      ascii ''| 1 | A | x | a'' @ [BACKSLASH, PIPE] @ ascii ''b c | 5 | 5 |'',
      ascii ''| 2 | B | y | [] | 0 | 0 |'', []]"
proof -
  let ?rs = "[\<lparr>studentId = [0x31], studentName = [0x41], activityContent = [0x78],
       observation = [0x61, PIPE, 0x62, NL, 0x63], charCount = 5, byteCount = 5\<rparr>,
      \<lparr>studentId = [0x32], studentName = [0x42], activityContent = [0x79],
       observation = [0x5B, 0x5D], charCount = 0, byteCount = 0\<rparr>]"
  have k: "list_all hasCleanKeys ?rs"
    by (simp add: hasCleanKeys_def isCleanField_def trim_def isWhiteSpace_def TAB_def NL_def)
  have st: "map rowStart ?rs = [ascii ''| 1 | A | '', ascii ''| 2 | B | '']"
    by (simp add: rowStart_def ascii_def)
  have lines: "split_str (generateMarkdownTable ?rs) NL =
     [butlast tableHeader, butlast tableSeparator,
      ascii ''| 1 | A | x | a'' @ [BACKSLASH, PIPE] @ ascii ''b c | 5 | 5 |'',
      ascii ''| 2 | B | y | [] | 0 | 0 |'', []]"
    by (simp add: generateMarkdownTable_def tableRow_def tableHeader_def tableSeparator_def
        replaceAll_def numberToString.simps [of 5] numberToString.simps [of 0]
        split_str_def ascii_def NL_def PIPE_def BACKSLASH_def SPACE_def Let_def)
  have "list_all hasCleanKeys ?rs \<longrightarrow>
      tableRowsInOrder (map rowStart ?rs) (generateMarkdownTable ?rs)"
    using order_preserved [where rs = ?rs] by (rule conjunct2 [THEN conjunct2])
  then have "tableRowsInOrder [ascii ''| 1 | A | '', ascii ''| 2 | B | '']
      (generateMarkdownTable ?rs)"
    using k by (simp only: st)
  then show ?thesis
    using k lines by (intro conjI)
qed

text \<open>
  Every record of the pipeline of src/main.ts, generated or placeholder, has
  \<open>charCount \<le> byteCount\<close>.
\<close>

lemma observationRecordOf_counts:
  "charCount (observationRecordOf a r) \<le> byteCount (observationRecordOf a r)"
  by (cases r)
     (simp_all add: observationRecordOf_def failureRecord_def successRecord_def
        countChars_le_countBytes)

lemma run_counts:
  "list_all (\<lambda>r. charCount r \<le> byteCount r)
     (records (processConversion_loop api settings target as 0
        \<lparr>records = [], errorCount = 0, world = w, events = []\<rparr>))"
  by (auto simp: run_records list_all_iff observationRecordOf_counts dest!: set_zip_leftD)


section \<open>The byte estimate\<close>

lemma bitlen_le: "n < 2 ^ j \<Longrightarrow> bitlen n \<le> j"
proof (induction n arbitrary: j rule: bitlen.induct)
  case (1 n)
  show ?case
  proof (cases "n = 0")
    case True
    then show ?thesis by (simp add: bitlen.simps [of 0])
  next
    case False
    then obtain i where j: "j = Suc i"
      using "1.prems" by (cases j) auto
    have "n div 2 < 2 ^ i"
      using "1.prems" j by auto
    then have "bitlen (n div 2) \<le> i"
      using "1.IH" [OF False] by blast
    then show ?thesis
      using False j by (simp add: bitlen.simps [of n])
  qed
qed

lemma round53_err:
  assumes "m < 2 ^ (53 + j)"
  shows "round53 m \<le> m + 2 ^ j \<and> m \<le> round53 m + 2 ^ j"
proof (cases "bitlen m \<le> 53")
  case True
  then show ?thesis by (simp add: round53_def)
next
  case False
  define sh where "sh = bitlen m - 53"
  have "bitlen m \<le> 53 + j"
    using assms by (rule bitlen_le)
  then have sh: "sh \<le> j"
    by (simp add: sh_def)
  then have p: "(2::nat) ^ sh \<le> 2 ^ j"
    by simp
  have m: "m = m div 2 ^ sh * 2 ^ sh + m mod 2 ^ sh"
    using div_mult_mod_eq [of m "2 ^ sh"] by simp
  have r: "m mod 2 ^ sh < 2 ^ sh"
    by simp
  have "round53 m = m div 2 ^ sh * 2 ^ sh \<or> round53 m = (m div 2 ^ sh + 1) * 2 ^ sh"
    using False by (simp add: round53_def Let_def sh_def)
  then show ?thesis
  proof
    assume "round53 m = m div 2 ^ sh * 2 ^ sh"
    then show ?thesis using m r p by linarith
  next
    assume "round53 m = (m div 2 ^ sh + 1) * 2 ^ sh"
    then have "round53 m = m div 2 ^ sh * 2 ^ sh + 2 ^ sh"
      by (simp add: algebra_simps)
    then show ?thesis using m r p by linarith
  qed
qed

lemma bitlen_0: "bitlen 0 = 0"
  by (simp add: bitlen.simps [of 0])

lemma bitlen_pos: "0 < n \<Longrightarrow> bitlen n = Suc (bitlen (n div 2))"
  by (subst bitlen.simps) simp

lemmas double_eval =
  estimateBytes_def dmul_def dadd_def mathRound_def ofInteger_def literal_0_8_def literal_0_2_def
  round53_def bitlen_0 bitlen_pos Let_def roundedRatio_def exactEstimate_def

lemma estimateBytes_500: "estimateBytes 500 = 1300"
  by (simp add: double_eval)

lemma estimateBytes_2_49: "estimateBytes 562949953421312 = 1463669878895412 \<and> exactEstimate 562949953421312 = 1463669878895411"
  by (simp add: double_eval)

lemma exactEstimate_alt: "exactEstimate c = (26 * c + 5) div 10"
proof -
  have "exactEstimate c = (2 * (26 * c + 5)) div (2 * 10)"
    by (simp add: exactEstimate_def roundedRatio_def)
  also have "\<dots> = (26 * c + 5) div 10"
    by (rule div_mult_mult1) simp
  finally show ?thesis .
qed

lemma estimateBytes_unfold:
  "estimateBytes c =
     (2 * round53 (round53 (round53 (c * 7205759403792794) * 3) * 4 +
                   round53 (round53 (c * 7205759403792794) * 1)) + 2 ^ 55) div 2 ^ 56"
  by (simp add: estimateBytes_def dmul_def dadd_def mathRound_def ofInteger_def
      literal_0_8_def literal_0_2_def Let_def del: mult_1_right)

lemma estimateBytes_exact:
  assumes c: "c < 2 ^ 45"
  shows "estimateBytes c = exactEstimate c"
proof -
  define P where "P = c * 7205759403792794"
  define m1 where "m1 = round53 P"
  define a2 where "a2 = round53 (m1 * 3)"
  define b2 where "b2 = round53 (m1 * 1)"
  define mf where "mf = round53 (a2 * 4 + b2)"
  define q where "q = (26 * c + 5) div 10"
  define t where "t = (26 * c + 5) mod 10"
  have c': "c < 35184372088832"
    using c by simp
  have P5: "5 * P = c * 36028797018963968 + 2 * c"
    by (simp add: P_def)
  have "P < 2 ^ (53 + 45)"
    using c' by (simp add: P_def)
  then have e1: "m1 \<le> P + 2 ^ 45 \<and> P \<le> m1 + 2 ^ 45"
    unfolding m1_def by (rule round53_err)
  have "m1 * 3 < 2 ^ (53 + 47)"
    using e1 c' P5 by simp
  then have e2: "a2 \<le> m1 * 3 + 2 ^ 47 \<and> m1 * 3 \<le> a2 + 2 ^ 47"
    unfolding a2_def by (rule round53_err)
  have "m1 * 1 < 2 ^ (53 + 46)"
    using e1 c' P5 by simp
  then have e3: "b2 \<le> m1 * 1 + 2 ^ 46 \<and> m1 * 1 \<le> b2 + 2 ^ 46"
    unfolding b2_def by (rule round53_err)
  have "a2 * 4 + b2 < 2 ^ (53 + 49)"
    using e1 e2 e3 c' P5 by simp
  then have e4: "mf \<le> a2 * 4 + b2 + 2 ^ 49 \<and> a2 * 4 + b2 \<le> mf + 2 ^ 49"
    unfolding mf_def by (rule round53_err)
  have qt: "26 * c + 5 = 10 * q + t"
    by (simp add: q_def t_def)
  have "odd (26 * c + 5)"
    by simp
  then have "odd t"
    unfolding t_def by presburger
  moreover have "t < 10"
    by (simp add: t_def)
  ultimately have t: "1 \<le> t \<and> t \<le> 9"
    by (cases "t = 0") auto
  have lo: "2 ^ 56 * q \<le> 2 * mf + 2 ^ 55"
    using e1 e2 e3 e4 c' P5 qt t by simp
  have hi: "2 * mf + 2 ^ 55 < 2 ^ 56 * Suc q"
    using e1 e2 e3 e4 c' P5 qt t by simp
  have "(2 * mf + 2 ^ 55) div 2 ^ 56 = q"
    using lo hi by (rule div_nat_eqI)
  then show ?thesis
    by (simp add: estimateBytes_unfold exactEstimate_alt mf_def a2_def b2_def m1_def P_def q_def
        del: mult_1_right)
qed

text \<open>
  Both literals are 53-bit mantissas and lie within half a unit of the last place of the
  decimal fraction they are written as.
\<close>

lemma literals_nearest:
  "2 ^ 52 \<le> fst literal_0_8 \<and> fst literal_0_8 < 2 ^ 53 \<and>
   10 * fst literal_0_8 \<le> 8 * 2 ^ snd literal_0_8 + 5 \<and>
   8 * 2 ^ snd literal_0_8 \<le> 10 * fst literal_0_8 + 5 \<and>
   2 ^ 52 \<le> fst literal_0_2 \<and> fst literal_0_2 < 2 ^ 53 \<and>
   10 * fst literal_0_2 \<le> 2 * 2 ^ snd literal_0_2 + 5 \<and>
   2 * 2 ^ snd literal_0_2 \<le> 10 * fst literal_0_2 + 5"
  by (simp add: literal_0_8_def literal_0_2_def)

text \<open>
  Claim C8, as stated, holds for every non-negative integer. At \<open>c = 2^49\<close>, an integer
  that is a double, the sum of the two rounded products is rounded again and the code
  returns one more than the exactly rounded value.
\<close>

theorem estimateBytes_large_counterexample:
  "estimateBytes 562949953421312 = 1463669878895412 \<and>
   exactEstimate 562949953421312 = 1463669878895411 \<and>
   estimateBytes 562949953421312 \<noteq> exactEstimate 562949953421312"
  by (simp add: double_eval)

text \<open>
  Claim C8, amended. For every non-negative integer \<open>c\<close> below \<open>2^45\<close>,
  \<open>estimateBytes c\<close> equals \<open>c * 0.8 * 3 + c * 0.2 * 1\<close> taken exactly and rounded to
  the nearest integer, which is \<open>(26 c + 5) div 10\<close>; in particular
  \<open>estimateBytes 500 = 1300\<close>.
\<close>

theorem estimateBytes_in_range:
  "(c < 2 ^ 45 \<longrightarrow> estimateBytes c = exactEstimate c) \<and>
   exactEstimate c = (26 * c + 5) div 10 \<and>
   estimateBytes 500 = 1300 \<and> exactEstimate 500 = 1300"
proof (intro conjI impI)
  assume "c < 2 ^ 45"
  then show "estimateBytes c = exactEstimate c"
    by (rule estimateBytes_exact)
next
  show "exactEstimate c = (26 * c + 5) div 10"
    by (rule exactEstimate_alt)
next
  show "estimateBytes 500 = 1300"
    by (simp add: double_eval)
next
  show "exactEstimate 500 = 1300"
    by (simp add: double_eval)
qed

text \<open>The theorem of C8 at 500, at 1 and at the last integer of the range.\<close>

theorem estimateBytes_in_range_witness:
  "(500::nat) < 2 ^ 45 \<and> estimateBytes 500 = exactEstimate 500 \<and>
   (1::nat) < 2 ^ 45 \<and> estimateBytes 1 = 3 \<and>
   (35184372088831::nat) < 2 ^ 45 \<and> estimateBytes 35184372088831 = 91479367430961"
  using estimateBytes_in_range [of 500] estimateBytes_in_range [of 1]
    estimateBytes_in_range [of 35184372088831]
  by simp


end
